theory Spec2Isabelle
  imports Complex_Main "HOL-Library.Multiset" "HOL-Library.Sublist"
begin

section \<open>Thumbnail composition engine of app.py\<close>

text \<open>
  The model covers \<open>get_emoji_image\<close>, \<open>create_gradient_background\<close>,
  \<open>create_emoji_background\<close>, \<open>wrap_text\<close>, \<open>add_text_overlay\<close> and
  \<open>create_thumbnail\<close>.

  Conventions.
  \<^item> A Python \<open>str\<close> is a list of code points (\<open>ustr\<close>); URLs and font paths, which are
    ASCII, are \<open>string\<close>s.
  \<^item> A Python exception is a value of type \<open>exn\<close>; a call that may raise returns
    \<open>exn + 'a\<close>, and every \<open>try/except\<close> of the source is a case distinction.
  \<^item> Python floats are modelled by exact rationals and \<open>int(x)\<close> by truncation towards
    zero. The floating-point computation is exact, and the model agrees with it, where the
    operands are dyadic rationals of few bits: the gradient for a power-of-two size such as
    the 1024 that \<open>create_thumbnail\<close> fixes. The font sizes at canvas size 1024 and
    multiplier 1 and the ring colours at glyph size 64 truncate to the same integers in
    both. For other sizes a floating-point result can lie just below an integer that the
    exact value reaches, and the truncation is then one less than in the model.
  \<^item> The \<open>random\<close> module is a supply of natural numbers (\<open>rng\<close>), threaded through the
    calls in program order.
  \<^item> The network, the image decoder, font loading and font metrics are parameters,
    collected in the record \<open>env\<close>. The metrics of a string depend on the font and the
    string only, whichever drawing context asks for them.
  \<^item> The memoisation of \<open>get_emoji_image\<close> by its decorator is left out: the model
    describes a call that is computed.
  \<^item> An image is its dimensions, its mode and a description of its content; the canvas is
    the background raster together with the list of drawing operations applied to it, in
    order.
\<close>

subsection \<open>Strings\<close>

type_synonym ustr = "nat list"

text \<open>The code points for which \<open>str.isspace\<close> holds; \<open>str.split()\<close> splits on them.\<close>

definition isspace :: "nat \<Rightarrow> bool" where
  "isspace c = (c \<in> set [0x09, 0x0A, 0x0B, 0x0C, 0x0D, 0x1C, 0x1D, 0x1E, 0x1F, 0x20, 0x85, 0xA0,
     0x1680, 0x2000, 0x2001, 0x2002, 0x2003, 0x2004, 0x2005, 0x2006, 0x2007, 0x2008, 0x2009,
     0x200A, 0x2028, 0x2029, 0x202F, 0x205F, 0x3000])"

text \<open>\<open>text.split()\<close>: maximal runs of non-whitespace, in order; \<open>cur\<close> is the run being read.\<close>

fun split_acc :: "ustr \<Rightarrow> ustr \<Rightarrow> ustr list" where
  "split_acc cur [] = (if cur = [] then [] else [cur])"
| "split_acc cur (c # cs) =
     (if isspace c then (if cur = [] then split_acc [] cs else cur # split_acc [] cs)
      else split_acc (cur @ [c]) cs)"

definition str_split :: "ustr \<Rightarrow> ustr list" where
  "str_split s = split_acc [] s"

text \<open>\<open>sep.join(ws)\<close>.\<close>

fun str_join :: "ustr \<Rightarrow> ustr list \<Rightarrow> ustr" where
  "str_join sep [] = []"
| "str_join sep [w] = w"
| "str_join sep (w # ws) = w @ sep @ str_join sep ws"

text \<open>\<open>ord(emoji)\<close> raises \<open>TypeError\<close> unless the string has exactly one code point.\<close>

datatype exn = TypeError | ValueError | RequestException | UnidentifiedImageError | OSError

definition py_ord :: "ustr \<Rightarrow> exn + nat" where
  "py_ord s = (case s of [c] \<Rightarrow> Inr c | _ \<Rightarrow> Inl TypeError)"

text \<open>\<open>format(n, 'x')\<close>: lowercase hexadecimal digits, most significant first.\<close>

definition hex_char :: "nat \<Rightarrow> char" where
  "hex_char d = ''0123456789abcdef'' ! d"

function format_x :: "nat \<Rightarrow> string" where
  "format_x n = (if n < 16 then [hex_char n] else format_x (n div 16) @ [hex_char (n mod 16)])"
  by pat_completeness auto
termination
  by (relation "measure id") auto

declare format_x.simps [simp del]

subsection \<open>Numbers and randomness\<close>

text \<open>\<open>int(x)\<close> on a float truncates towards zero.\<close>

definition py_int :: "rat \<Rightarrow> int" where
  "py_int x = (if 0 \<le> x then \<lfloor>x\<rfloor> else \<lceil>x\<rceil>)"

type_synonym rng = "nat \<Rightarrow> nat"

definition rng_next :: "rng \<Rightarrow> nat \<times> rng" where
  "rng_next r = (r 0, \<lambda>n. r (Suc n))"

text \<open>\<open>random.randint(a, b)\<close> raises \<open>ValueError\<close> on an empty range.\<close>

definition randint :: "int \<Rightarrow> int \<Rightarrow> rng \<Rightarrow> (exn + int) \<times> rng" where
  "randint a b r =
     (if b < a then (Inl ValueError, r)
      else (let (v, r') = rng_next r in (Inr (a + int (v mod nat (b - a + 1))), r')))"

text \<open>\<open>random.choice(seq)\<close>, used on non-empty literal lists only.\<close>

definition choice :: "'a list \<Rightarrow> rng \<Rightarrow> 'a \<times> rng" where
  "choice seq r = (let (v, r') = rng_next r in (seq ! (v mod length seq), r'))"

text \<open>
  \<open>random.shuffle(x)\<close>: for \<open>i\<close> from \<open>len(x) - 1\<close> down to 1, pick \<open>j\<close> in \<open>[0, i]\<close> and
  swap \<open>x[i]\<close> with \<open>x[j]\<close>.
\<close>

fun shuffle_loop :: "nat \<Rightarrow> 'a list \<Rightarrow> rng \<Rightarrow> 'a list \<times> rng" where
  "shuffle_loop 0 x r = (x, r)"
| "shuffle_loop (Suc i) x r =
     (let (v, r') = rng_next r;
          j = v mod (Suc i + 1)
      in shuffle_loop i (x[Suc i := x ! j, j := x ! Suc i]) r')"

definition shuffle :: "'a list \<Rightarrow> rng \<Rightarrow> 'a list \<times> rng" where
  "shuffle x r = shuffle_loop (length x - 1) x r"

subsection \<open>Data model\<close>

record quote =
  quote_text :: ustr
  importance :: int

record emoji_weight =
  emoji :: ustr
  weight :: int

record thumbnail_data =
  quotes :: "quote list"
  emojis :: "emoji_weight list"

type_synonym rgb = "int \<times> int \<times> int"
type_synonym rgba = "int \<times> int \<times> int \<times> int"
type_synonym bbox = "int \<times> int \<times> int \<times> int"

text \<open>
  The content of a glyph image: the decoded bytes of a response, or the ellipses drawn on
  a transparent image (box and fill colour, in drawing order).
\<close>

datatype img_data = Decoded "nat list" | Drawn "(bbox \<times> rgba) list"

record image =
  img_width :: int
  img_height :: int
  img_mode :: string
  img_data :: img_data
  alpha_scaled :: bool

datatype font = TrueType string int | DefaultFont

datatype colour = White | Black

datatype draw_op =
    Paste image int int
  | Ellipse bbox rgba
  | DrawText int int ustr font colour

record canvas =
  cv_size :: int
  cv_pixels :: "rgb list"
  cv_ops :: "draw_op list"

text \<open>
  The collaborators of the engine: \<open>requests.get(url, timeout=5)\<close> raises or returns a
  status code and a body; \<open>Image.open\<close> raises or returns the width, height and mode of the
  decoded image; \<open>ImageFont.truetype(path, size)\<close> loads or raises; \<open>textbbox((0, 0), s,
  font)\<close> returns the box \<open>(x0, y0, x1, y1)\<close> of a string.
\<close>

record env =
  http_get :: "string \<Rightarrow> exn + (nat \<times> nat list)"
  image_open :: "nat list \<Rightarrow> exn + (int \<times> int \<times> string)"
  truetype_ok :: "string \<Rightarrow> int \<Rightarrow> bool"
  textbbox :: "font \<Rightarrow> ustr \<Rightarrow> bbox"

definition truetype :: "env \<Rightarrow> string \<Rightarrow> int \<Rightarrow> exn + font" where
  "truetype e path sz = (if truetype_ok e path sz then Inr (TrueType path sz) else Inl OSError)"

subsection \<open>\<open>get_emoji_image\<close>\<close>

text \<open>\<open>Image.new(mode, (size, size))\<close> raises \<open>ValueError\<close> on a negative size.\<close>

definition image_new :: "string \<Rightarrow> int \<Rightarrow> exn + image" where
  "image_new mode_name sz =
     (if sz < 0 then Inl ValueError
      else Inr \<lparr>img_width = sz, img_height = sz, img_mode = mode_name,
                img_data = Drawn [], alpha_scaled = False\<rparr>)"

text \<open>\<open>img.resize((size, size), LANCZOS)\<close> raises \<open>ValueError\<close> unless the size is positive.\<close>

definition resize :: "image \<Rightarrow> int \<Rightarrow> exn + image" where
  "resize img sz =
     (if sz < 1 then Inl ValueError
      else Inr (img\<lparr>img_width := sz, img_height := sz\<rparr>))"

definition svg_url :: "nat \<Rightarrow> string" where
  "svg_url cp = ''https://twemoji.maxcdn.com/v/latest/svg/'' @ format_x cp @ ''.svg''"

definition png_url :: "nat \<Rightarrow> string" where
  "png_url cp = ''https://twemoji.maxcdn.com/v/latest/72x72/'' @ format_x cp @ ''.png''"

text \<open>
  The first \<open>try\<close> block: the SVG is requested and its response ignored; any exception is
  swallowed. The value is the list of URLs requested.
\<close>

definition svg_attempt :: "env \<Rightarrow> ustr \<Rightarrow> string list" where
  "svg_attempt e emo = (case py_ord emo of Inl _ \<Rightarrow> [] | Inr cp \<Rightarrow> [svg_url cp])"

text \<open>
  The body of the second \<open>try\<close> block: \<open>Inr (Some img)\<close> is the \<open>return emoji_img\<close>,
  \<open>Inr None\<close> the end of the block without a return (status other than 200), \<open>Inl\<close> an
  exception. The second component is the list of URLs requested.
\<close>

definition png_attempt :: "env \<Rightarrow> ustr \<Rightarrow> int \<Rightarrow> (exn + image option) \<times> string list" where
  "png_attempt e emo sz =
     (case py_ord emo of
        Inl x \<Rightarrow> (Inl x, [])
      | Inr cp \<Rightarrow>
          (let url = png_url cp in
           case http_get e url of
             Inl x \<Rightarrow> (Inl x, [url])
           | Inr (status_code, content) \<Rightarrow>
               if status_code = 200 then
                 (case image_open e content of
                    Inl x \<Rightarrow> (Inl x, [url])
                  | Inr (w, h, m) \<Rightarrow>
                      (case resize \<lparr>img_width = w, img_height = h, img_mode = m,
                                    img_data = Decoded content, alpha_scaled = False\<rparr> sz of
                         Inl x \<Rightarrow> (Inl x, [url])
                       | Inr emoji_img \<Rightarrow> (Inr (Some emoji_img), [url])))
               else (Inr None, [url])))"

definition circle_colors :: "rgb list" where
  "circle_colors = [(255, 100, 100), (100, 255, 100), (100, 100, 255),
                    (255, 255, 100), (255, 100, 255), (100, 255, 255)]"

text \<open>One ring of the placeholder, for loop index \<open>i\<close>.\<close>

definition circle_ring :: "int \<Rightarrow> rgb \<Rightarrow> int \<Rightarrow> bbox \<times> rgba" where
  "circle_ring sz color i =
     (let shade = py_int (255 * (1 - of_int i / of_int (sz div 4) * (3 / 10)));
          ch = (\<lambda>c. min 255 (py_int (of_int c * of_int shade / 255)))
      in case color of (cr, cg, cb) \<Rightarrow>
           ((i, i, sz - i - 1, sz - i - 1), (ch cr, ch cg, ch cb, 180)))"

text \<open>The fallback after both \<open>try\<close> blocks; it is not itself inside a \<open>try\<close>.\<close>

definition circle_fallback :: "int \<Rightarrow> rng \<Rightarrow> (exn + image) \<times> rng" where
  "circle_fallback sz r =
     (case image_new ''RGBA'' sz of
        Inl x \<Rightarrow> (Inl x, r)
      | Inr img \<Rightarrow>
          (let (color, r') = choice circle_colors r
           in (Inr (img\<lparr>img_data := Drawn (map (circle_ring sz color) [0..sz div 4 - 1])\<rparr>),
               r')))"

text \<open>
  The result, the URLs requested (SVG first), and the random supply after the call.
\<close>

definition get_emoji_image :: "env \<Rightarrow> ustr \<Rightarrow> int \<Rightarrow> rng \<Rightarrow> (exn + image) \<times> string list \<times> rng" where
  "get_emoji_image e emo sz r =
     (let reqs1 = svg_attempt e emo;
          (res, reqs2) = png_attempt e emo sz
      in case res of
           Inr (Some emoji_img) \<Rightarrow> (Inr emoji_img, reqs1 @ reqs2, r)
         | _ \<Rightarrow> (let (img, r') = circle_fallback sz r in (img, reqs1 @ reqs2, r')))"

subsection \<open>\<open>create_gradient_background\<close>\<close>

definition palettes :: "(rgb \<times> rgb) list" where
  "palettes = [((240, 248, 255), (176, 196, 222)),
               ((255, 248, 240), (255, 218, 185)),
               ((248, 255, 248), (200, 255, 200)),
               ((255, 240, 245), (255, 182, 193)),
               ((248, 248, 255), (221, 160, 221))]"

definition gradient_channel :: "int \<Rightarrow> int \<Rightarrow> int \<Rightarrow> int \<Rightarrow> int" where
  "gradient_channel sz c0 c1 y =
     (let ratio = (of_int y / of_int sz :: rat)
      in py_int (of_int c0 * (1 - ratio) + of_int c1 * ratio))"

definition gradient_row :: "int \<Rightarrow> rgb \<times> rgb \<Rightarrow> int \<Rightarrow> rgb" where
  "gradient_row sz colors y =
     (case colors of ((r0, g0, b0), (r1, g1, b1)) \<Rightarrow>
        (gradient_channel sz r0 r1 y, gradient_channel sz g0 g1 y,
         gradient_channel sz b0 b1 y))"

text \<open>The list \<open>pixels\<close> handed to \<open>putdata\<close>: row after row, \<open>size\<close> entries per row.\<close>

definition gradient_pixels :: "int \<Rightarrow> rgb \<times> rgb \<Rightarrow> rgb list" where
  "gradient_pixels sz colors =
     concat (map (\<lambda>y. replicate (nat sz) (gradient_row sz colors y)) [0..sz - 1])"

definition create_gradient_background :: "int \<Rightarrow> rng \<Rightarrow> (exn + canvas) \<times> rng" where
  "create_gradient_background sz r =
     (if sz < 0 then (Inl ValueError, r)
      else (let (colors, r') = choice palettes r
            in (Inr \<lparr>cv_size = sz, cv_pixels = gradient_pixels sz colors, cv_ops = []\<rparr>,
                r')))"

text \<open>The pixel in column \<open>x\<close> of row \<open>y\<close> of the background raster.\<close>

definition pixel_at :: "canvas \<Rightarrow> int \<Rightarrow> int \<Rightarrow> rgb" where
  "pixel_at cv x y = cv_pixels cv ! nat (y * cv_size cv + x)"

subsection \<open>\<open>create_emoji_background\<close>\<close>

definition emoji_size :: int where
  "emoji_size = 64"

text \<open>The list \<open>emoji_positions\<close> before the shuffle.\<close>

definition emoji_positions :: "emoji_weight list \<Rightarrow> ustr list" where
  "emoji_positions ems =
     concat (map (\<lambda>emoji_data. replicate (nat (max 2 (weight emoji_data))) (emoji emoji_data)) ems)"

text \<open>
  The placement loop. An exception stops it; the canvas keeps what was pasted before, as
  the image is mutated in place.
\<close>

fun place_emojis :: "env \<Rightarrow> int \<Rightarrow> ustr list \<Rightarrow> canvas \<Rightarrow> rng \<Rightarrow> exn option \<times> canvas \<times> rng" where
  "place_emojis e sz [] img r = (None, img, r)"
| "place_emojis e sz (emo # rest) img r =
     (case randint 0 (sz - emoji_size) r of
        (Inl x, r1) \<Rightarrow> (Some x, img, r1)
      | (Inr x, r1) \<Rightarrow>
          (case randint 0 (sz - emoji_size) r1 of
             (Inl x, r2) \<Rightarrow> (Some x, img, r2)
           | (Inr y, r2) \<Rightarrow>
               (case get_emoji_image e emo emoji_size r2 of
                  (Inl x, reqs, r3) \<Rightarrow> (Some x, img, r3)
                | (Inr emoji_img, reqs, r3) \<Rightarrow>
                    (let emoji_img = (if img_mode emoji_img \<noteq> ''RGBA''
                                      then emoji_img\<lparr>img_mode := ''RGBA''\<rparr> else emoji_img);
                         emoji_img = emoji_img\<lparr>alpha_scaled := True\<rparr>
                     in place_emojis e sz rest
                          (img\<lparr>cv_ops := cv_ops img @ [Paste emoji_img x y]\<rparr>) r3))))"

definition shape_colors :: "rgba list" where
  "shape_colors = [(255, 200, 200, 150), (200, 255, 200, 150), (200, 200, 255, 150),
                   (255, 255, 200, 150), (255, 200, 255, 150), (200, 255, 255, 150)]"

text \<open>The fallback of the \<open>except\<close> branch: \<open>n\<close> ellipses; an exception here propagates.\<close>

fun fallback_shapes :: "nat \<Rightarrow> int \<Rightarrow> canvas \<Rightarrow> rng \<Rightarrow> exn + (canvas \<times> rng)" where
  "fallback_shapes 0 sz img r = Inr (img, r)"
| "fallback_shapes (Suc n) sz img r =
     (case randint 0 (sz - 60) r of
        (Inl x, r1) \<Rightarrow> Inl x
      | (Inr x, r1) \<Rightarrow>
          (case randint 0 (sz - 60) r1 of
             (Inl x, r2) \<Rightarrow> Inl x
           | (Inr y, r2) \<Rightarrow>
               (let (color, r3) = choice shape_colors r2 in
                case randint 30 80 r3 of
                  (Inl x, r4) \<Rightarrow> Inl x
                | (Inr shape_size, r4) \<Rightarrow>
                    fallback_shapes n sz
                      (img\<lparr>cv_ops := cv_ops img @
                             [Ellipse (x, y, x + shape_size, y + shape_size) color]\<rparr>) r4)))"

definition create_emoji_background :: "env \<Rightarrow> canvas \<Rightarrow> int \<Rightarrow> emoji_weight list \<Rightarrow> rng
    \<Rightarrow> exn + (canvas \<times> rng)" where
  "create_emoji_background e img sz ems r =
     (let (shuffled, r1) = shuffle (emoji_positions ems) r
      in case place_emojis e sz shuffled img r1 of
           (None, img', r2) \<Rightarrow> Inr (img', r2)
         | (Some x, img', r2) \<Rightarrow> fallback_shapes 80 sz img' r2)"

text \<open>The glyph images pasted onto a canvas, in order.\<close>

fun pasted :: "draw_op list \<Rightarrow> image list" where
  "pasted [] = []"
| "pasted (Paste im x y # ops) = im # pasted ops"
| "pasted (_ # ops) = pasted ops"

subsection \<open>\<open>wrap_text\<close>\<close>

definition bbox_width :: "bbox \<Rightarrow> int" where
  "bbox_width b = (case b of (x0, y0, x1, y1) \<Rightarrow> x1 - x0)"

definition bbox_height :: "bbox \<Rightarrow> int" where
  "bbox_height b = (case b of (x0, y0, x1, y1) \<Rightarrow> y1 - y0)"

text \<open>The loop over the words; the state is \<open>(lines, current_line)\<close>.\<close>

fun wrap_loop :: "env \<Rightarrow> font \<Rightarrow> int \<Rightarrow> ustr list \<times> ustr list \<Rightarrow> ustr list
    \<Rightarrow> ustr list \<times> ustr list" where
  "wrap_loop e fnt max_width (lines, current_line) [] = (lines, current_line)"
| "wrap_loop e fnt max_width (lines, current_line) (word # words) =
     (let test_line = str_join [0x20] (current_line @ [word]);
          test_width = bbox_width (textbbox e fnt test_line)
      in if test_width \<le> max_width
         then wrap_loop e fnt max_width (lines, current_line @ [word]) words
         else if current_line \<noteq> []
         then wrap_loop e fnt max_width (lines @ [str_join [0x20] current_line], [word]) words
         else wrap_loop e fnt max_width (lines @ [word], current_line) words)"

definition wrap_text :: "env \<Rightarrow> ustr \<Rightarrow> font \<Rightarrow> int \<Rightarrow> ustr list" where
  "wrap_text e txt fnt max_width =
     (let words = str_split txt;
          (lines, current_line) = wrap_loop e fnt max_width ([], []) words
      in if current_line \<noteq> [] then lines @ [str_join [0x20] current_line] else lines)"

subsection \<open>\<open>add_text_overlay\<close>\<close>

definition font_paths :: "string list" where
  "font_paths = [''/System/Library/Fonts/Arial Bold.ttc'',
                 ''/System/Library/Fonts/Helvetica-Bold.ttc'',
                 ''/System/Library/Fonts/Arial.ttc'',
                 ''/usr/share/fonts/truetype/dejavu/DejaVuSans-Bold.ttf'',
                 ''/Windows/Fonts/arialbd.ttf'',
                 ''/Windows/Fonts/arial.ttf'']"

definition system_fonts :: "string list" where
  "system_fonts = [''/System/Library/Fonts/Arial.ttc'',
                   ''/System/Library/Fonts/Helvetica.ttc'']"

text \<open>The first path that loads at size 20, if any.\<close>

fun find_base_font :: "env \<Rightarrow> string list \<Rightarrow> string option" where
  "find_base_font e [] = None"
| "find_base_font e (font_path # rest) =
     (case truetype e font_path 20 of
        Inr _ \<Rightarrow> Some font_path
      | Inl _ \<Rightarrow> find_base_font e rest)"

fun try_system_fonts :: "env \<Rightarrow> string list \<Rightarrow> int \<Rightarrow> font option" where
  "try_system_fonts e [] font_size = None"
| "try_system_fonts e (font_path # rest) font_size =
     (case truetype e font_path font_size of
        Inr f \<Rightarrow> Some f
      | Inl _ \<Rightarrow> try_system_fonts e rest font_size)"

definition load_font :: "env \<Rightarrow> string option \<Rightarrow> int \<Rightarrow> font" where
  "load_font e base_font font_size =
     (let fnt = (case base_font of
                   None \<Rightarrow> None
                 | Some p \<Rightarrow> (case truetype e p font_size of Inr f \<Rightarrow> Some f | Inl _ \<Rightarrow> None));
          fnt = (case fnt of None \<Rightarrow> try_system_fonts e system_fonts font_size | Some f \<Rightarrow> Some f)
      in case fnt of None \<Rightarrow> DefaultFont | Some f \<Rightarrow> f)"

text \<open>The two assignments to \<open>font_size\<close>.\<close>

definition quote_font_size :: "int \<Rightarrow> rat \<Rightarrow> int \<Rightarrow> int" where
  "quote_font_size sz text_size_multiplier imp =
     (let base_size = sz div 4;
          font_size = py_int (of_int base_size * (of_int imp / 10) * text_size_multiplier)
      in max (py_int (150 * text_size_multiplier))
             (min font_size (py_int (of_int (sz div 2) * text_size_multiplier))))"

text \<open>The white outline of one line: every offset in \<open>[-4, 4] \<times> [-4, 4]\<close> but \<open>(0, 0)\<close>.\<close>

definition outline_ops :: "int \<Rightarrow> int \<Rightarrow> ustr \<Rightarrow> font \<Rightarrow> draw_op list" where
  "outline_ops x current_y line fnt =
     concat (map (\<lambda>dx. concat (map (\<lambda>dy.
         if dx \<noteq> 0 \<or> dy \<noteq> 0 then [DrawText (x + dx) (current_y + dy) line fnt White] else [])
       [-4..4])) [-4..4])"

text \<open>
  The loop over the lines of a block that fits; the state is the operations drawn and
  \<open>current_y\<close>.
\<close>

fun draw_lines :: "env \<Rightarrow> int \<Rightarrow> font \<Rightarrow> int \<Rightarrow> (ustr \<times> int) list \<Rightarrow> draw_op list \<times> int
    \<Rightarrow> draw_op list \<times> int" where
  "draw_lines e sz fnt line_spacing [] (ops, current_y) = (ops, current_y)"
| "draw_lines e sz fnt line_spacing ((line, line_height) # rest) (ops, current_y) =
     (let line_width = bbox_width (textbbox e fnt line);
          x = (sz - line_width) div 2
      in draw_lines e sz fnt line_spacing rest
           (ops @ outline_ops x current_y line fnt @ [DrawText x current_y line fnt Black],
            current_y + line_height + line_spacing))"

definition quote_font :: "env \<Rightarrow> string option \<Rightarrow> int \<Rightarrow> rat \<Rightarrow> quote \<Rightarrow> font" where
  "quote_font e base_font sz text_size_multiplier q =
     load_font e base_font (quote_font_size sz text_size_multiplier (importance q))"

definition quote_lines :: "env \<Rightarrow> string option \<Rightarrow> int \<Rightarrow> rat \<Rightarrow> quote \<Rightarrow> ustr list" where
  "quote_lines e base_font sz text_size_multiplier q =
     wrap_text e (quote_text q) (quote_font e base_font sz text_size_multiplier q) (sz - 120)"

definition line_heights :: "env \<Rightarrow> string option \<Rightarrow> int \<Rightarrow> rat \<Rightarrow> quote \<Rightarrow> int list" where
  "line_heights e base_font sz text_size_multiplier q =
     map (\<lambda>line. bbox_height (textbbox e (quote_font e base_font sz text_size_multiplier q) line))
       (quote_lines e base_font sz text_size_multiplier q)"

definition line_spacing :: "int \<Rightarrow> rat \<Rightarrow> quote \<Rightarrow> int" where
  "line_spacing sz text_size_multiplier q =
     quote_font_size sz text_size_multiplier (importance q) div 4"

definition total_height :: "env \<Rightarrow> string option \<Rightarrow> int \<Rightarrow> rat \<Rightarrow> quote \<Rightarrow> int" where
  "total_height e base_font sz text_size_multiplier q =
     sum_list (line_heights e base_font sz text_size_multiplier q)
     + line_spacing sz text_size_multiplier q
       * (int (length (quote_lines e base_font sz text_size_multiplier q)) - 1)"

text \<open>One iteration of the loop over the quotes; the state is the canvas and \<open>y_offset\<close>.\<close>

definition quote_step :: "env \<Rightarrow> string option \<Rightarrow> int \<Rightarrow> rat \<Rightarrow> canvas \<times> int \<Rightarrow> quote
    \<Rightarrow> canvas \<times> int" where
  "quote_step e base_font sz text_size_multiplier st q =
     (case st of (img, y_offset) \<Rightarrow>
        if y_offset + total_height e base_font sz text_size_multiplier q < sz - 100
        then (let (ops, current_y) =
                    draw_lines e sz (quote_font e base_font sz text_size_multiplier q)
                      (line_spacing sz text_size_multiplier q)
                      (zip (quote_lines e base_font sz text_size_multiplier q)
                           (line_heights e base_font sz text_size_multiplier q))
                      (cv_ops img, y_offset)
              in (img\<lparr>cv_ops := ops\<rparr>, current_y + 40))
        else (img, y_offset))"

fun overlay_loop :: "env \<Rightarrow> string option \<Rightarrow> int \<Rightarrow> rat \<Rightarrow> canvas \<times> int \<Rightarrow> quote list
    \<Rightarrow> canvas \<times> int" where
  "overlay_loop e base_font sz text_size_multiplier st [] = st"
| "overlay_loop e base_font sz text_size_multiplier st (q # qs) =
     overlay_loop e base_font sz text_size_multiplier
       (quote_step e base_font sz text_size_multiplier st q) qs"

text \<open>\<open>quotes.sort(key=lambda k: k['importance'], reverse=True)\<close>: stable, descending.\<close>

definition sort_quotes :: "quote list \<Rightarrow> quote list" where
  "sort_quotes qs = sort_key (\<lambda>k. - importance k) qs"

text \<open>
  The function mutates both of its arguments \<open>img\<close> and \<open>quotes\<close>; the result is the pair
  of their values when it returns.
\<close>

definition add_text_overlay :: "env \<Rightarrow> canvas \<Rightarrow> int \<Rightarrow> quote list \<Rightarrow> rat \<Rightarrow> canvas \<times> quote list" where
  "add_text_overlay e img sz qs text_size_multiplier =
     (let qs' = sort_quotes qs;
          base_font = find_base_font e font_paths;
          y_offset = sz div 12
      in (fst (overlay_loop e base_font sz text_size_multiplier (img, y_offset) qs'), qs'))"

text \<open>The lines drawn in black on a canvas, in order: the text that is rendered.\<close>

fun black_lines :: "draw_op list \<Rightarrow> ustr list" where
  "black_lines [] = []"
| "black_lines (DrawText x y line fnt Black # ops) = line # black_lines ops"
| "black_lines (_ # ops) = black_lines ops"

subsection \<open>\<open>create_thumbnail\<close>\<close>

definition create_thumbnail :: "env \<Rightarrow> thumbnail_data \<Rightarrow> rat \<Rightarrow> rng \<Rightarrow> exn + canvas" where
  "create_thumbnail e data text_size_multiplier r =
     (let sz = 1024 in
      case create_gradient_background sz r of
        (Inl x, r1) \<Rightarrow> Inl x
      | (Inr img, r1) \<Rightarrow>
          (case create_emoji_background e img sz (emojis data) r1 of
             Inl x \<Rightarrow> Inl x
           | Inr (img, r2) \<Rightarrow>
               Inr (fst (add_text_overlay e img sz (quotes data) text_size_multiplier))))"

subsection \<open>Notions used in the statements\<close>

text \<open>A word as \<open>split()\<close> returns it: non-empty and free of whitespace.\<close>

definition word_ok :: "ustr \<Rightarrow> bool" where
  "word_ok w = (w \<noteq> [] \<and> list_all (\<lambda>c. \<not> isspace c) w)"

text \<open>
  A group of words that forms an admissible line: non-empty, and either within the width
  limit when joined by single spaces or a single word.
\<close>

definition line_ok :: "env \<Rightarrow> font \<Rightarrow> int \<Rightarrow> ustr list \<Rightarrow> bool" where
  "line_ok e fnt max_width g =
     (g \<noteq> [] \<and> (bbox_width (textbbox e fnt (str_join [0x20] g)) \<le> max_width \<or> length g = 1))"

text \<open>The image is the procedural placeholder (ellipses drawn on a fresh image).\<close>

definition is_placeholder :: "image \<Rightarrow> bool" where
  "is_placeholder img = (case img_data img of Drawn _ \<Rightarrow> True | Decoded _ \<Rightarrow> False)"

text \<open>
  The PNG lookup does not yield a decodable image: \<open>ord\<close> raises, the request raises, the
  status is not 200, or the body does not decode.
\<close>

definition fetch_failed :: "env \<Rightarrow> ustr \<Rightarrow> bool" where
  "fetch_failed e emo =
     (case py_ord emo of
        Inl _ \<Rightarrow> True
      | Inr cp \<Rightarrow>
          (case http_get e (png_url cp) of
             Inl _ \<Rightarrow> True
           | Inr (status_code, content) \<Rightarrow>
               status_code \<noteq> 200 \<or> (case image_open e content of Inl _ \<Rightarrow> True | Inr _ \<Rightarrow> False)))"

text \<open>Two colours differ by at most one in every channel.\<close>

definition within_one :: "rgb \<Rightarrow> rgb \<Rightarrow> bool" where
  "within_one a b =
     (case a of (ar, ag, ab) \<Rightarrow> case b of (br, bg, bb) \<Rightarrow>
        \<bar>ar - br\<bar> \<le> 1 \<and> \<bar>ag - bg\<bar> \<le> 1 \<and> \<bar>ab - bb\<bar> \<le> 1)"

text \<open>
  The quotes that the loop of \<open>add_text_overlay\<close> renders, by its own test: a quote is
  taken when the cursor plus its block height is below \<open>size - 100\<close>, and the cursor then
  moves as the loop moves it; a quote that does not fit is passed over, the cursor stays,
  and the quotes after it are still tried.
\<close>

fun fitting_quotes :: "env \<Rightarrow> string option \<Rightarrow> int \<Rightarrow> rat \<Rightarrow> int \<Rightarrow> quote list \<Rightarrow> quote list" where
  "fitting_quotes e base_font sz m y [] = []"
| "fitting_quotes e base_font sz m y (q # qs) =
     (if y + total_height e base_font sz m q < sz - 100
      then q # fitting_quotes e base_font sz m
                 (y + total_height e base_font sz m q + line_spacing sz m q + 40) qs
      else fitting_quotes e base_font sz m y qs)"

text \<open>
  Concrete inputs: an environment without network and fonts, where every string is 300
  wide per code point and 500 high; an environment where every request returns status 200
  with a decodable body, every font loads, and every string is 100 wide per code point and
  100 high; an empty canvas; and four quotes.
\<close>

definition env_offline :: env where
  "env_offline = \<lparr>http_get = (\<lambda>u. Inl RequestException),
                   image_open = (\<lambda>b. Inl UnidentifiedImageError),
                   truetype_ok = (\<lambda>p s. False),
                   textbbox = (\<lambda>f s. (0, 0, 300 * int (length s), 500))\<rparr>"

definition env_online :: env where
  "env_online = \<lparr>http_get = (\<lambda>u. Inr (200, [1, 2, 3])),
                  image_open = (\<lambda>b. Inr (72, 72, ''P'')),
                  truetype_ok = (\<lambda>p s. True),
                  textbbox = (\<lambda>f s. (0, 0, 100 * int (length s), 100))\<rparr>"

definition blank_canvas :: "int \<Rightarrow> canvas" where
  "blank_canvas sz = \<lparr>cv_size = sz, cv_pixels = [], cv_ops = []\<rparr>"

definition quote_long :: quote where
  "quote_long = \<lparr>quote_text = [97, 32, 98, 32, 99], importance = 10\<rparr>"

definition quote_short :: quote where
  "quote_short = \<lparr>quote_text = [100], importance = 1\<rparr>"

definition quote_a :: quote where
  "quote_a = \<lparr>quote_text = [97], importance = 10\<rparr>"

definition quote_b :: quote where
  "quote_b = \<lparr>quote_text = [98], importance = 1\<rparr>"

text \<open>
  The vertical positions at which lines are drawn in black on a canvas, in order, and the
  positions of the lines of a block that starts at \<open>y\<close>, by its line heights and spacing.
\<close>

fun black_tops :: "draw_op list \<Rightarrow> int list" where
  "black_tops [] = []"
| "black_tops (DrawText x y line fnt Black # ops) = y # black_tops ops"
| "black_tops (_ # ops) = black_tops ops"

fun line_tops :: "int \<Rightarrow> int \<Rightarrow> int list \<Rightarrow> int list" where
  "line_tops y sp [] = []"
| "line_tops y sp (h # hs) = y # line_tops (y + h + sp) sp hs"

subsection \<open>Word wrap\<close>

lemma split_acc_word:
  "list_all (\<lambda>c. \<not> isspace c) w \<Longrightarrow> split_acc cur (w @ rest) = split_acc (cur @ w) rest"
  by (induction w arbitrary: cur) auto

lemma split_acc_words_ok:
  "list_all (\<lambda>c. \<not> isspace c) cur \<Longrightarrow> list_all word_ok (split_acc cur s)"
  by (induction s arbitrary: cur) (auto simp: word_ok_def)

lemma str_split_words_ok: "list_all word_ok (str_split s)"
  by (simp add: str_split_def split_acc_words_ok)

lemma split_acc_join:
  "list_all word_ok ws \<Longrightarrow> list_all (\<lambda>c. \<not> isspace c) cur \<Longrightarrow> ws \<noteq> [] \<Longrightarrow>
   split_acc cur (str_join [0x20] ws) = (cur @ hd ws) # tl ws"
proof (induction ws arbitrary: cur)
  case Nil
  then show ?case by simp
next
  case (Cons w ws)
  have sp: "isspace 0x20" by (simp add: isspace_def)
  from Cons.prems have w: "w \<noteq> []" "list_all (\<lambda>c. \<not> isspace c) w"
    by (simp_all add: word_ok_def)
  show ?case
  proof (cases ws)
    case Nil
    then show ?thesis using w split_acc_word[of w cur "[]"] by simp
  next
    case (Cons v vs)
    have "split_acc cur (str_join [0x20] (w # ws)) = split_acc cur (w @ 0x20 # str_join [0x20] ws)"
      using Cons by simp
    also have "\<dots> = split_acc (cur @ w) (0x20 # str_join [0x20] ws)"
      using w by (simp add: split_acc_word)
    also have "\<dots> = (cur @ w) # split_acc [] (str_join [0x20] ws)"
      using sp w by simp
    also have "split_acc [] (str_join [0x20] ws) = ([] @ hd ws) # tl ws"
      using Cons.IH[of "[]"] Cons.prems Cons by simp
    finally show ?thesis using Cons by simp
  qed
qed

lemma str_split_join: "list_all word_ok ws \<Longrightarrow> str_split (str_join [0x20] ws) = ws"
  using split_acc_join[of ws "[]"] by (cases ws) (auto simp: str_split_def)

lemma wrap_loop_inv:
  assumes "lines = map (str_join [0x20]) gs"
    and "list_all (line_ok e fnt max_width) gs"
    and "cur = [] \<or> line_ok e fnt max_width cur"
    and "wrap_loop e fnt max_width (lines, cur) ws = (lines', cur')"
  shows "\<exists>gs'. lines' = map (str_join [0x20]) gs' \<and> list_all (line_ok e fnt max_width) gs'
           \<and> (cur' = [] \<or> line_ok e fnt max_width cur')
           \<and> concat gs' @ cur' = concat gs @ cur @ ws"
  using assms
proof (induction ws arbitrary: lines gs cur)
  case Nil
  then show ?case by auto
next
  case (Cons w ws)
  let ?tw = "bbox_width (textbbox e fnt (str_join [0x20] (cur @ [w])))"
  show ?case
  proof (cases "?tw \<le> max_width")
    case True
    then have run: "wrap_loop e fnt max_width (lines, cur @ [w]) ws = (lines', cur')"
      using Cons.prems(4) by simp
    have ok: "cur @ [w] = [] \<or> line_ok e fnt max_width (cur @ [w])"
      using True by (simp add: line_ok_def)
    from Cons.IH[OF Cons.prems(1) Cons.prems(2) ok run] show ?thesis by auto
  next
    case False
    show ?thesis
    proof (cases "cur = []")
      case True
      then have run: "wrap_loop e fnt max_width (lines @ [w], []) ws = (lines', cur')"
        using Cons.prems(4) False by simp
      have l: "lines @ [w] = map (str_join [0x20]) (gs @ [[w]])"
        using Cons.prems(1) by simp
      have "line_ok e fnt max_width [w]"
        by (simp add: line_ok_def)
      then have g: "list_all (line_ok e fnt max_width) (gs @ [[w]])"
        using Cons.prems(2) by simp
      from Cons.IH[OF l g _ run] True show ?thesis by auto
    next
      case nonempty: False
      then have run: "wrap_loop e fnt max_width (lines @ [str_join [0x20] cur], [w]) ws
                        = (lines', cur')"
        using Cons.prems(4) False by simp
      have l: "lines @ [str_join [0x20] cur] = map (str_join [0x20]) (gs @ [cur])"
        using Cons.prems(1) by simp
      have g: "list_all (line_ok e fnt max_width) (gs @ [cur])"
        using Cons.prems(2) Cons.prems(3) nonempty by simp
      have c: "[w] = [] \<or> line_ok e fnt max_width [w]"
        by (simp add: line_ok_def)
      from Cons.IH[OF l g c run] show ?thesis by auto
    qed
  qed
qed

lemma wrap_text_groups:
  "\<exists>gs. wrap_text e txt fnt max_width = map (str_join [0x20]) gs
        \<and> list_all (line_ok e fnt max_width) gs
        \<and> concat gs = str_split txt"
proof -
  obtain lines cur where run:
    "wrap_loop e fnt max_width ([], []) (str_split txt) = (lines, cur)"
    by (cases "wrap_loop e fnt max_width ([], []) (str_split txt)")
  from wrap_loop_inv[of "[]" "[]" e fnt max_width "[]" "str_split txt" lines cur] run
  obtain gs where gs: "lines = map (str_join [0x20]) gs"
      "list_all (line_ok e fnt max_width) gs"
      "cur = [] \<or> line_ok e fnt max_width cur"
      "concat gs @ cur = str_split txt"
    by auto
  show ?thesis
  proof (cases "cur = []")
    case True
    then show ?thesis using gs run by (auto simp: wrap_text_def)
  next
    case False
    then have "wrap_text e txt fnt max_width = map (str_join [0x20]) (gs @ [cur])"
      using gs run by (simp add: wrap_text_def)
    moreover have "list_all (line_ok e fnt max_width) (gs @ [cur])"
      using gs False by simp
    moreover have "concat (gs @ [cur]) = str_split txt"
      using gs by simp
    ultimately show ?thesis by blast
  qed
qed

lemma str_join_append:
  "a \<noteq> [] \<Longrightarrow> b \<noteq> [] \<Longrightarrow> str_join sep (a @ b) = str_join sep a @ sep @ str_join sep b"
proof (induction a)
  case Nil
  then show ?case by simp
next
  case (Cons x xs)
  then show ?case by (cases xs; cases b) auto
qed

lemma str_join_groups:
  "list_all (\<lambda>g. g \<noteq> []) gs \<Longrightarrow> str_join sep (map (str_join sep) gs) = str_join sep (concat gs)"
proof (induction gs)
  case Nil
  then show ?case by simp
next
  case (Cons g gs)
  show ?case
  proof (cases gs)
    case Nil
    then show ?thesis by simp
  next
    case (Cons h hs)
    then have ne: "concat gs \<noteq> []" "g \<noteq> []" using Cons.prems by auto
    have "str_join sep (map (str_join sep) (g # gs))
            = str_join sep g @ sep @ str_join sep (map (str_join sep) gs)"
      using Cons by simp
    also have "\<dots> = str_join sep g @ sep @ str_join sep (concat gs)"
      using Cons.IH Cons.prems by simp
    also have "\<dots> = str_join sep (g @ concat gs)"
      using ne by (simp add: str_join_append)
    finally show ?thesis by simp
  qed
qed

text \<open>
  C4: joining the lines of \<open>wrap_text\<close> with single spaces gives back the words of the
  text, in order, none dropped or duplicated (also line by line); and every line is within
  \<open>max_width\<close> (\<open>add_text_overlay\<close> passes \<open>size - 120\<close>) unless it is a single word
  that is itself wider than the limit.
\<close>

theorem wrap_text_roundtrip:
  "str_split (str_join [0x20] (wrap_text e txt fnt max_width)) = str_split txt
   \<and> concat (map str_split (wrap_text e txt fnt max_width)) = str_split txt
   \<and> (\<forall>line \<in> set (wrap_text e txt fnt max_width).
        bbox_width (textbbox e fnt line) \<le> max_width
        \<or> (length (str_split line) = 1 \<and> max_width < bbox_width (textbbox e fnt line)))"
proof -
  obtain gs where gs: "wrap_text e txt fnt max_width = map (str_join [0x20]) gs"
      "list_all (line_ok e fnt max_width) gs" "concat gs = str_split txt"
    using wrap_text_groups by blast
  have words: "list_all word_ok (concat gs)"
    using gs(3) str_split_words_ok by simp
  then have each: "\<forall>g \<in> set gs. list_all word_ok g"
    by (auto simp: list_all_iff)
  have ne: "list_all (\<lambda>g. g \<noteq> []) gs"
    using gs(2) by (auto simp: list_all_iff line_ok_def)
  have a: "str_split (str_join [0x20] (wrap_text e txt fnt max_width)) = str_split txt"
    using gs ne words by (simp add: str_join_groups str_split_join)
  have "map str_split (map (str_join [0x20]) gs) = gs"
    using each by (induction gs) (simp_all add: str_split_join)
  then have b: "concat (map str_split (wrap_text e txt fnt max_width)) = str_split txt"
    using gs by simp
  have c: "\<forall>line \<in> set (wrap_text e txt fnt max_width).
        bbox_width (textbbox e fnt line) \<le> max_width
        \<or> (length (str_split line) = 1 \<and> max_width < bbox_width (textbbox e fnt line))"
  proof
    fix line assume "line \<in> set (wrap_text e txt fnt max_width)"
    then obtain g where g: "g \<in> set gs" "line = str_join [0x20] g"
      using gs(1) by auto
    then have "line_ok e fnt max_width g" "str_split line = g"
      using gs(2) each by (auto simp: list_all_iff str_split_join)
    then show "bbox_width (textbbox e fnt line) \<le> max_width
        \<or> (length (str_split line) = 1 \<and> max_width < bbox_width (textbbox e fnt line))"
      using g(2) by (auto simp: line_ok_def)
  qed
  from a b c show ?thesis by blast
qed

theorem wrap_text_roundtrip_witness:
  "wrap_text env_online [97, 32, 32, 98, 32, 99, 99, 99, 99, 99, 99, 99, 99, 99, 99] DefaultFont 904
     = [[97, 32, 98], [99, 99, 99, 99, 99, 99, 99, 99, 99, 99]]
   \<and> str_split (str_join [0x20]
        (wrap_text env_online [97, 32, 32, 98, 32, 99, 99, 99, 99, 99, 99, 99, 99, 99, 99]
           DefaultFont 904))
     = [[97], [98], [99, 99, 99, 99, 99, 99, 99, 99, 99, 99]]
   \<and> bbox_width (textbbox env_online DefaultFont [97, 32, 98]) \<le> 904
   \<and> length (str_split [99, 99, 99, 99, 99, 99, 99, 99, 99, 99]) = 1
   \<and> 904 < bbox_width (textbbox env_online DefaultFont [99, 99, 99, 99, 99, 99, 99, 99, 99, 99])"
proof -
  have s: "str_split [97, 32, 32, 98, 32, 99, 99, 99, 99, 99, 99, 99, 99, 99, 99]
             = [[97], [98], [99, 99, 99, 99, 99, 99, 99, 99, 99, 99]]"
    by (simp add: str_split_def isspace_def)
  have w: "wrap_text env_online [97, 32, 32, 98, 32, 99, 99, 99, 99, 99, 99, 99, 99, 99, 99]
             DefaultFont 904 = [[97, 32, 98], [99, 99, 99, 99, 99, 99, 99, 99, 99, 99]]"
    by (simp add: wrap_text_def s env_online_def bbox_width_def)
  have t: "str_split [99, 99, 99, 99, 99, 99, 99, 99, 99, 99]
             = [[99, 99, 99, 99, 99, 99, 99, 99, 99, 99]]"
    by (simp add: str_split_def isspace_def)
  show ?thesis
    using wrap_text_roundtrip[of env_online
        "[97, 32, 32, 98, 32, 99, 99, 99, 99, 99, 99, 99, 99, 99, 99]" DefaultFont 904] s w t
    by (simp add: env_online_def bbox_width_def)
qed

subsection \<open>Glyph resolution\<close>

lemma circle_fallback_ok:
  "0 \<le> sz \<Longrightarrow> \<exists>img. fst (circle_fallback sz r) = Inr img \<and> img_width img = sz
      \<and> img_height img = sz \<and> is_placeholder img"
  by (simp add: circle_fallback_def image_new_def is_placeholder_def split: prod.splits)

lemma png_attempt_image:
  "fst (png_attempt e emo sz) = Inr (Some img) \<Longrightarrow>
     img_width img = sz \<and> img_height img = sz \<and> \<not> fetch_failed e emo"
  by (auto simp: png_attempt_def resize_def fetch_failed_def Let_def
           split: sum.splits prod.splits if_splits)

lemma get_emoji_image_cases:
  "fst (get_emoji_image e emo sz r) =
     (case fst (png_attempt e emo sz) of
        Inr (Some img) \<Rightarrow> Inr img
      | _ \<Rightarrow> fst (circle_fallback sz r))"
  by (simp add: get_emoji_image_def Let_def split: prod.splits sum.splits option.splits)

lemma get_emoji_image_ok:
  assumes "0 < sz"
  shows "\<exists>img. fst (get_emoji_image e emo sz r) = Inr img \<and> img_width img = sz
           \<and> img_height img = sz"
proof (cases "\<exists>img. fst (png_attempt e emo sz) = Inr (Some img)")
  case True
  then obtain img where "fst (png_attempt e emo sz) = Inr (Some img)" by blast
  then show ?thesis using png_attempt_image[of e emo sz img]
    by (simp add: get_emoji_image_cases)
next
  case False
  then have "fst (get_emoji_image e emo sz r) = fst (circle_fallback sz r)"
    by (auto simp: get_emoji_image_cases split: sum.splits option.splits)
  then show ?thesis using circle_fallback_ok[of sz r] assms by auto
qed

lemma png_attempt_success:
  "0 < sz \<Longrightarrow> \<not> fetch_failed e emo \<Longrightarrow>
     \<exists>img. fst (png_attempt e emo sz) = Inr (Some img) \<and> \<not> is_placeholder img"
  by (auto simp: png_attempt_def resize_def fetch_failed_def Let_def is_placeholder_def
           split: sum.splits prod.splits if_splits)





subsection \<open>Collage\<close>

lemma shuffle_loop_mset:
  "i < length x \<Longrightarrow> mset (fst (shuffle_loop i x r)) = mset x"
proof (induction i arbitrary: x r)
  case 0
  then show ?case by simp
next
  case (Suc i)
  obtain v r' where n: "rng_next r = (v, r')" by (cases "rng_next r")
  let ?j = "v mod (Suc i + 1)"
  have j: "?j < length x" using Suc.prems
  proof -
    have "?j < Suc i + 1" by (rule mod_less_divisor) simp
    then show ?thesis using Suc.prems by linarith
  qed
  let ?x' = "x[Suc i := x ! ?j, ?j := x ! Suc i]"
  have "mset ?x' = mset x" using Suc.prems j by (simp add: mset_swap)
  moreover have "i < length ?x'" using Suc.prems by simp
  ultimately show ?case using Suc.IH[of ?x' r'] n by (simp add: Let_def)
qed

lemma shuffle_mset: "mset (fst (shuffle x r)) = mset x"
proof (cases x)
  case Nil
  then show ?thesis by (simp add: shuffle_def)
next
  case (Cons a as)
  then show ?thesis using shuffle_loop_mset[of "length x - 1" x r] by (simp add: shuffle_def)
qed

lemma shuffle_length: "length (fst (shuffle x r)) = length x"
  using shuffle_mset[of x r] by (metis size_mset)

lemma emoji_positions_length:
  "int (length (emoji_positions ems)) = sum_list (map (\<lambda>d. max 2 (weight d)) ems)"
  by (induction ems) (simp_all add: emoji_positions_def)

lemma pasted_append: "pasted (a @ b) = pasted a @ pasted b"
  by (induction a rule: pasted.induct) simp_all

lemma black_lines_append: "black_lines (a @ b) = black_lines a @ black_lines b"
  by (induction a rule: black_lines.induct) simp_all

lemma randint_ok: "a \<le> b \<Longrightarrow> \<exists>v r'. randint a b r = (Inr v, r')"
  by (simp add: randint_def split: prod.splits)

lemma place_emojis_ok:
  "64 \<le> sz \<Longrightarrow> \<exists>img' r'. place_emojis e sz emos img r = (None, img', r')
      \<and> length (pasted (cv_ops img')) = length (pasted (cv_ops img)) + length emos
      \<and> black_lines (cv_ops img') = black_lines (cv_ops img)
      \<and> cv_pixels img' = cv_pixels img \<and> cv_size img' = cv_size img"
proof (induction emos arbitrary: img r)
  case Nil
  then show ?case by simp
next
  case (Cons emo rest)
  have le: "0 \<le> sz - emoji_size" using Cons.prems by (simp add: emoji_size_def)
  obtain x r1 where x: "randint 0 (sz - emoji_size) r = (Inr x, r1)"
    using randint_ok[OF le] by blast
  obtain y r2 where y: "randint 0 (sz - emoji_size) r1 = (Inr y, r2)"
    using randint_ok[OF le] by blast
  obtain res reqs r3 where g: "get_emoji_image e emo emoji_size r2 = (res, reqs, r3)"
    by (cases "get_emoji_image e emo emoji_size r2")
  have "0 < emoji_size" by (simp add: emoji_size_def)
  from get_emoji_image_ok[OF this, of e emo r2] g
  obtain emoji_img where i: "res = Inr emoji_img" by auto
  let ?im = "(if img_mode emoji_img \<noteq> ''RGBA'' then emoji_img\<lparr>img_mode := ''RGBA''\<rparr>
              else emoji_img)\<lparr>alpha_scaled := True\<rparr>"
  let ?img = "img\<lparr>cv_ops := cv_ops img @ [Paste ?im x y]\<rparr>"
  have step: "place_emojis e sz (emo # rest) img r = place_emojis e sz rest ?img r3"
    using x y g i by (simp add: Let_def)
  from Cons.IH[OF Cons.prems, of ?img r3] step show ?case
    by (auto simp: pasted_append black_lines_append)
qed



subsection \<open>Gradient background\<close>

lemma gradient_channel_div:
  assumes "0 < sz" "0 \<le> y" "y \<le> sz" "0 \<le> c0" "0 \<le> c1"
  shows "gradient_channel sz c0 c1 y = (c0 * (sz - y) + c1 * y) div sz"
proof -
  have nz: "(of_int sz :: rat) \<noteq> 0" using assms(1) by simp
  have eq: "of_int c0 * (1 - of_int y / of_int sz) + of_int c1 * (of_int y / of_int sz)
          = (of_int (c0 * (sz - y) + c1 * y) / of_int sz :: rat)"
    using nz by (simp add: field_simps)
  have "0 \<le> c0 * (sz - y) + c1 * y" using assms by simp
  then have nn: "(0::rat) \<le> of_int (c0 * (sz - y) + c1 * y) / of_int sz"
    using assms(1) by (simp add: divide_nonneg_pos del: of_int_add of_int_mult of_int_diff)
  show ?thesis
    unfolding gradient_channel_def Let_def eq py_int_def
    using nn by (simp add: floor_divide_of_int_eq del: of_int_add of_int_mult of_int_diff)
qed

lemma concat_replicate_nth:
  "i < length ys \<Longrightarrow> j < n \<Longrightarrow> concat (map (\<lambda>y. replicate n (f y)) ys) ! (i * n + j) = f (ys ! i)"
proof (induction ys arbitrary: i)
  case Nil
  then show ?case by simp
next
  case (Cons a ys)
  show ?case
  proof (cases i)
    case 0
    then show ?thesis using Cons.prems by (simp add: nth_append)
  next
    case (Suc k)
    then have "k < length ys" using Cons.prems by simp
    from Cons.IH[OF this Cons.prems(2)] Suc show ?thesis
      by (simp add: nth_append add.assoc)
  qed
qed

lemma concat_replicate_length:
  "length (concat (map (\<lambda>y. replicate n (f y)) ys)) = length ys * n"
  by (induction ys) simp_all

lemma gradient_pixels_nth:
  assumes "0 \<le> x" "x < sz" "0 \<le> y" "y < sz"
  shows "gradient_pixels sz colors ! nat (y * sz + x) = gradient_row sz colors y"
proof -
  have i: "nat y < length [0..sz - 1]" using assms by simp
  have j: "nat x < nat sz" using assms by simp
  have n: "nat (y * sz + x) = nat y * nat sz + nat x"
    using assms by (simp add: nat_add_distrib nat_mult_distrib)
  have "[0..sz - 1] ! nat y = y" using assms by simp
  then show ?thesis
    using concat_replicate_nth[OF i j, of "gradient_row sz colors"] n
    by (simp add: gradient_pixels_def)
qed

lemma gradient_pixels_length:
  "0 \<le> sz \<Longrightarrow> int (length (gradient_pixels sz colors)) = sz * sz"
  by (simp add: gradient_pixels_def concat_replicate_length)

lemma choice_palettes: "fst (choice palettes r) \<in> set palettes"
proof -
  have "r 0 mod length palettes < length palettes" by (simp add: palettes_def)
  then show ?thesis by (simp add: choice_def rng_next_def)
qed

lemma create_gradient_background_eq:
  "0 \<le> sz \<Longrightarrow> fst (create_gradient_background sz r)
     = Inr \<lparr>cv_size = sz, cv_pixels = gradient_pixels sz (fst (choice palettes r)), cv_ops = []\<rparr>"
  by (simp add: create_gradient_background_def split: prod.splits)

lemma create_gradient_background_run:
  "0 \<le> sz \<Longrightarrow> \<exists>r1. create_gradient_background sz r
     = (Inr \<lparr>cv_size = sz, cv_pixels = gradient_pixels sz (fst (choice palettes r)), cv_ops = []\<rparr>,
        r1)"
  by (simp add: create_gradient_background_def split: prod.splits)

lemma first_row_channel: "0 < sz \<Longrightarrow> 0 \<le> c0 \<Longrightarrow> 0 \<le> c1 \<Longrightarrow> gradient_channel sz c0 c1 0 = c0"
  by (simp add: gradient_channel_div)

lemma last_row_channel:
  assumes "0 < sz" "0 \<le> c1" "c1 \<le> c0"
  shows "gradient_channel sz c0 c1 (sz - 1) = c1 + (c0 - c1) div sz"
proof -
  have "gradient_channel sz c0 c1 (sz - 1) = (c0 * (sz - (sz - 1)) + c1 * (sz - 1)) div sz"
    using assms by (intro gradient_channel_div) auto
  also have "c0 * (sz - (sz - 1)) + c1 * (sz - 1) = (c0 - c1) + c1 * sz"
    by (simp add: algebra_simps)
  also have "((c0 - c1) + c1 * sz) div sz = (c0 - c1) div sz + c1"
    using assms(1) by simp
  finally show ?thesis by simp
qed

lemma last_row_near:
  assumes "45 \<le> sz" "0 \<le> c1" "c1 \<le> c0" "c0 - c1 \<le> 88"
  shows "\<bar>gradient_channel sz c0 c1 (sz - 1) - c1\<bar> \<le> 1"
proof -
  have d: "0 \<le> (c0 - c1) div sz" using assms by (simp add: pos_imp_zdiv_nonneg_iff)
  have "(c0 - c1) div sz \<le> 88 div sz" using assms by (intro zdiv_mono1) auto
  also have "88 div sz \<le> 88 div 45" using assms(1) by (intro zdiv_mono2) auto
  finally have "(c0 - c1) div sz \<le> 1" by simp
  then show ?thesis using d assms by (simp add: last_row_channel)
qed

lemma last_row_exact:
  assumes "89 \<le> sz" "0 \<le> c1" "c1 \<le> c0" "c0 - c1 \<le> 88"
  shows "gradient_channel sz c0 c1 (sz - 1) = c1"
  using assms by (simp add: last_row_channel div_pos_pos_trivial)




subsection \<open>Text overlay\<close>

lemma white_ops:
  "\<forall>op \<in> set ops. \<exists>x y l f. op = DrawText x y l f White \<Longrightarrow>
     black_lines ops = [] \<and> pasted ops = []"
  by (induction ops) auto

lemma outline_ops_white:
  "\<forall>op \<in> set (outline_ops x y line fnt). \<exists>x' y' l f. op = DrawText x' y' l f White"
  unfolding outline_ops_def by (auto split: if_splits)

lemma black_lines_outline: "black_lines (outline_ops x y line fnt) = []"
  using white_ops[OF outline_ops_white] by blast

lemma pasted_outline: "pasted (outline_ops x y line fnt) = []"
  using white_ops[OF outline_ops_white] by blast

lemma draw_lines_result:
  "draw_lines e sz fnt sp lhs (ops, y) = (ops', y') \<Longrightarrow>
     y' = y + sum_list (map snd lhs) + sp * int (length lhs)
     \<and> black_lines ops' = black_lines ops @ map fst lhs
     \<and> pasted ops' = pasted ops"
proof (induction lhs arbitrary: ops y)
  case Nil
  then show ?case by simp
next
  case (Cons a lhs)
  obtain line h where a: "a = (line, h)" by (cases a)
  let ?x = "(sz - bbox_width (textbbox e fnt line)) div 2"
  let ?ops = "ops @ outline_ops ?x y line fnt @ [DrawText ?x y line fnt Black]"
  have "draw_lines e sz fnt sp lhs (?ops, y + h + sp) = (ops', y')"
    using Cons.prems a by (simp add: Let_def)
  from Cons.IH[OF this] show ?case
    by (simp add: a black_lines_append black_lines_outline pasted_append pasted_outline
        algebra_simps)
qed

lemma quote_step_result:
  "quote_step e bf sz m (img, y) q = (img', y') \<Longrightarrow>
     (if y + total_height e bf sz m q < sz - 100
      then y' = y + total_height e bf sz m q + line_spacing sz m q + 40
           \<and> black_lines (cv_ops img') = black_lines (cv_ops img) @ quote_lines e bf sz m q
      else y' = y \<and> img' = img)
     \<and> pasted (cv_ops img') = pasted (cv_ops img)
     \<and> cv_pixels img' = cv_pixels img \<and> cv_size img' = cv_size img"
proof (cases "y + total_height e bf sz m q < sz - 100")
  case False
  assume "quote_step e bf sz m (img, y) q = (img', y')"
  then show ?thesis using False by (auto simp: quote_step_def)
next
  case True
  assume st: "quote_step e bf sz m (img, y) q = (img', y')"
  let ?lhs = "zip (quote_lines e bf sz m q) (line_heights e bf sz m q)"
  obtain ops cy where d: "draw_lines e sz (quote_font e bf sz m q) (line_spacing sz m q) ?lhs
      (cv_ops img, y) = (ops, cy)"
    by (cases "draw_lines e sz (quote_font e bf sz m q) (line_spacing sz m q) ?lhs (cv_ops img, y)")
  have len: "length (line_heights e bf sz m q) = length (quote_lines e bf sz m q)"
    by (simp add: line_heights_def)
  have r: "img' = img\<lparr>cv_ops := ops\<rparr>" "y' = cy + 40"
    using st True d by (auto simp: quote_step_def)
  from draw_lines_result[OF d] len
  have "cy = y + sum_list (line_heights e bf sz m q)
               + line_spacing sz m q * int (length (quote_lines e bf sz m q))"
    and "black_lines ops = black_lines (cv_ops img) @ quote_lines e bf sz m q"
    and "pasted ops = pasted (cv_ops img)"
    by simp_all
  then show ?thesis using True r by (simp add: total_height_def algebra_simps)
qed

lemma overlay_loop_result:
  "overlay_loop e bf sz m (img, y) qs = (img', y') \<Longrightarrow>
     black_lines (cv_ops img')
       = black_lines (cv_ops img) @ concat (map (quote_lines e bf sz m) (fitting_quotes e bf sz m y qs))
     \<and> pasted (cv_ops img') = pasted (cv_ops img)
     \<and> cv_pixels img' = cv_pixels img \<and> cv_size img' = cv_size img"
proof (induction qs arbitrary: img y)
  case Nil
  then show ?case by simp
next
  case (Cons q qs)
  obtain img1 y1 where s: "quote_step e bf sz m (img, y) q = (img1, y1)"
    by (cases "quote_step e bf sz m (img, y) q")
  then have "overlay_loop e bf sz m (img1, y1) qs = (img', y')"
    using Cons.prems by simp
  from Cons.IH[OF this] quote_step_result[OF s] show ?case
    by (auto split: if_splits)
qed

lemma fitting_quotes_subseq: "subseq (fitting_quotes e bf sz m y qs) qs"
  by (induction qs arbitrary: y) auto

lemma add_text_overlay_black_lines:
  "black_lines (cv_ops (fst (add_text_overlay e img sz qs m)))
     = black_lines (cv_ops img)
       @ concat (map (quote_lines e (find_base_font e font_paths) sz m)
           (fitting_quotes e (find_base_font e font_paths) sz m (sz div 12) (sort_quotes qs)))"
proof -
  let ?bf = "find_base_font e font_paths"
  obtain img' y' where l: "overlay_loop e ?bf sz m (img, sz div 12) (sort_quotes qs) = (img', y')"
    by (cases "overlay_loop e ?bf sz m (img, sz div 12) (sort_quotes qs)")
  from overlay_loop_result[OF l] l show ?thesis
    by (simp add: add_text_overlay_def Let_def)
qed

lemma add_text_overlay_frame:
  "pasted (cv_ops (fst (add_text_overlay e img sz qs m))) = pasted (cv_ops img)
   \<and> cv_pixels (fst (add_text_overlay e img sz qs m)) = cv_pixels img
   \<and> cv_size (fst (add_text_overlay e img sz qs m)) = cv_size img"
proof -
  let ?bf = "find_base_font e font_paths"
  obtain img' y' where l: "overlay_loop e ?bf sz m (img, sz div 12) (sort_quotes qs) = (img', y')"
    by (cases "overlay_loop e ?bf sz m (img, sz div 12) (sort_quotes qs)")
  from overlay_loop_result[OF l] l show ?thesis
    by (simp add: add_text_overlay_def Let_def)
qed

text \<open>
  C1: (as the code has it) a quote is rendered, with all of its wrapped lines, exactly
  when the cursor plus its block height is strictly below \<open>size - 100\<close>; a quote that does
  not fit is left out whole, and the loop goes on to the quotes after it, which are rendered
  when they fit. The rendered quotes are therefore a subsequence of the quotes in descending
  importance, each with all of its lines, and no quote is rendered in part.
\<close>

theorem overlay_renders_fitting_quotes:
  "black_lines (cv_ops (fst (add_text_overlay e img sz qs m)))
     = black_lines (cv_ops img)
       @ concat (map (quote_lines e (find_base_font e font_paths) sz m)
           (fitting_quotes e (find_base_font e font_paths) sz m (sz div 12) (sort_quotes qs)))
   \<and> subseq (fitting_quotes e (find_base_font e font_paths) sz m (sz div 12) (sort_quotes qs))
        (sort_quotes qs)"
  using add_text_overlay_black_lines fitting_quotes_subseq by blast

text \<open>Evaluating the layout on the quotes \<open>quote_long\<close> and \<open>quote_short\<close>.\<close>

lemma find_base_font_offline: "find_base_font env_offline font_paths = None"
  by (simp add: font_paths_def truetype_def env_offline_def)

lemma quote_font_offline: "quote_font env_offline None sz m q = DefaultFont"
  by (simp add: quote_font_def load_font_def system_fonts_def truetype_def env_offline_def)

lemma quote_lines_long: "quote_lines env_offline None 1024 1 quote_long = [[97, 32, 98], [99]]"
  by (simp add: quote_lines_def quote_font_offline wrap_text_def str_split_def isspace_def
      quote_long_def env_offline_def bbox_width_def)

lemma quote_lines_short: "quote_lines env_offline None 1024 1 quote_short = [[100]]"
  by (simp add: quote_lines_def quote_font_offline wrap_text_def str_split_def isspace_def
      quote_short_def env_offline_def bbox_width_def)

lemma font_size_10: "quote_font_size 1024 1 10 = 256"
  by (simp add: quote_font_size_def py_int_def)

lemma total_height_long: "total_height env_offline None 1024 1 quote_long = 1064"
  by (simp add: total_height_def line_heights_def quote_lines_long quote_font_offline
      line_spacing_def font_size_10 bbox_height_def)
     (simp add: quote_long_def font_size_10 env_offline_def)

lemma total_height_short: "total_height env_offline None 1024 1 quote_short = 500"
  by (simp add: total_height_def line_heights_def quote_lines_short quote_font_offline
      line_spacing_def bbox_height_def)
     (simp add: env_offline_def)

lemma sort_long_short: "sort_quotes [quote_long, quote_short] = [quote_long, quote_short]"
  by (simp add: sort_quotes_def quote_long_def quote_short_def)

text \<open>
  The more important quote does not fit and is left out; the less important one after it
  is rendered.
\<close>

theorem overflow_skips_only_that_quote:
  "sort_quotes [quote_long, quote_short] = [quote_long, quote_short]
   \<and> 1024 div 12 + total_height env_offline None 1024 1 quote_long > (1024::int) - 100
   \<and> black_lines (cv_ops (fst (add_text_overlay env_offline (blank_canvas 1024) 1024
        [quote_long, quote_short] 1))) = [[100]]
   \<and> quote_lines env_offline None 1024 1 quote_short = [[100]]"
  by (simp add: add_text_overlay_black_lines find_base_font_offline sort_long_short
      total_height_long total_height_short quote_lines_short blank_canvas_def)

lemma black_tops_append: "black_tops (a @ b) = black_tops a @ black_tops b"
  by (induction a rule: black_tops.induct) simp_all

lemma white_tops:
  "\<forall>op \<in> set ops. \<exists>x y l f. op = DrawText x y l f White \<Longrightarrow> black_tops ops = []"
  by (induction ops) auto

lemma black_tops_outline: "black_tops (outline_ops x y line fnt) = []"
  using white_tops[OF outline_ops_white] by blast

lemma draw_lines_tops:
  "draw_lines e sz fnt sp lhs (ops, y) = (ops', y') \<Longrightarrow>
     black_tops ops' = black_tops ops @ line_tops y sp (map snd lhs)"
proof (induction lhs arbitrary: ops y)
  case Nil
  then show ?case by simp
next
  case (Cons a lhs)
  obtain line h where a: "a = (line, h)" by (cases a)
  let ?x = "(sz - bbox_width (textbbox e fnt line)) div 2"
  let ?ops = "ops @ outline_ops ?x y line fnt @ [DrawText ?x y line fnt Black]"
  have "draw_lines e sz fnt sp lhs (?ops, y + h + sp) = (ops', y')"
    using Cons.prems a by (simp add: Let_def)
  from Cons.IH[OF this] show ?case
    by (simp add: a black_tops_append black_tops_outline)
qed

lemma quote_step_tops:
  assumes "quote_step e bf sz m (img, y) q = (img', y')"
      and "y + total_height e bf sz m q < sz - 100"
  shows "black_tops (cv_ops img')
           = black_tops (cv_ops img) @ line_tops y (line_spacing sz m q) (line_heights e bf sz m q)"
proof -
  let ?lhs = "zip (quote_lines e bf sz m q) (line_heights e bf sz m q)"
  obtain ops cy where d: "draw_lines e sz (quote_font e bf sz m q) (line_spacing sz m q) ?lhs
      (cv_ops img, y) = (ops, cy)"
    by (cases "draw_lines e sz (quote_font e bf sz m q) (line_spacing sz m q) ?lhs (cv_ops img, y)")
  have len: "length (line_heights e bf sz m q) = length (quote_lines e bf sz m q)"
    by (simp add: line_heights_def)
  have r: "img' = img\<lparr>cv_ops := ops\<rparr>"
    using assms d by (auto simp: quote_step_def)
  from draw_lines_tops[OF d] len r show ?thesis by simp
qed

lemma find_base_font_online:
  "find_base_font env_online font_paths = Some ''/System/Library/Fonts/Arial Bold.ttc''"
  by (simp add: font_paths_def truetype_def env_online_def)

lemma quote_font_online:
  "quote_font env_online (Some ''/System/Library/Fonts/Arial Bold.ttc'') sz m q =
     TrueType ''/System/Library/Fonts/Arial Bold.ttc'' (quote_font_size sz m (importance q))"
  by (simp add: quote_font_def load_font_def truetype_def env_online_def)

lemma line_heights_a:
  "line_heights env_online (Some ''/System/Library/Fonts/Arial Bold.ttc'') 1024 1 quote_a = [100]"
  by (simp add: line_heights_def quote_lines_def quote_font_online wrap_text_def str_split_def
      isspace_def quote_a_def env_online_def bbox_width_def bbox_height_def)

lemma line_heights_b:
  "line_heights env_online (Some ''/System/Library/Fonts/Arial Bold.ttc'') 1024 1 quote_b = [100]"
  by (simp add: line_heights_def quote_lines_def quote_font_online wrap_text_def str_split_def
      isspace_def quote_b_def env_online_def bbox_width_def bbox_height_def)

lemma total_height_a:
  "total_height env_online (Some ''/System/Library/Fonts/Arial Bold.ttc'') 1024 1 quote_a = 100"
proof -
  let ?bf = "Some ''/System/Library/Fonts/Arial Bold.ttc''"
  have "length (quote_lines env_online ?bf 1024 1 quote_a)
          = length (line_heights env_online ?bf 1024 1 quote_a)"
    by (simp add: line_heights_def)
  then show ?thesis by (simp add: total_height_def line_heights_a)
qed

lemma total_height_b:
  "total_height env_online (Some ''/System/Library/Fonts/Arial Bold.ttc'') 1024 1 quote_b = 100"
proof -
  let ?bf = "Some ''/System/Library/Fonts/Arial Bold.ttc''"
  have "length (quote_lines env_online ?bf 1024 1 quote_b)
          = length (line_heights env_online ?bf 1024 1 quote_b)"
    by (simp add: line_heights_def)
  then show ?thesis by (simp add: total_height_def line_heights_b)
qed

lemma line_spacing_a: "line_spacing 1024 1 quote_a = 64"
  by (simp add: line_spacing_def quote_a_def font_size_10)

lemma sort_a_b: "sort_quotes [quote_a, quote_b] = [quote_a, quote_b]"
  by (simp add: sort_quotes_def quote_a_def quote_b_def)

text \<open>
  C8: the cursor starts at \<open>size // 12\<close>; after a block is rendered it should be the
  previous cursor plus the block height plus 40. The loop over the lines adds the line
  spacing after every line, the last one included, so for the one-line quote \<open>quote_a\<close>
  (height 100, font size 256, spacing 64) the cursor moves from 85 to 289 and not to 225,
  and the quote after it is drawn at 289.
\<close>

theorem cursor_gets_trailing_line_spacing:
  "total_height env_online (find_base_font env_online font_paths) 1024 1 quote_a = 100
   \<and> line_spacing 1024 1 quote_a = 64
   \<and> snd (overlay_loop env_online (find_base_font env_online font_paths) 1024 1
            (blank_canvas 1024, 1024 div 12) [quote_a]) = 289
   \<and> 1024 div 12 + total_height env_online (find_base_font env_online font_paths) 1024 1 quote_a
        + 40 = (225::int)
   \<and> black_tops (cv_ops (fst (add_text_overlay env_online (blank_canvas 1024) 1024
        [quote_a, quote_b] 1))) = [85, 289]"
proof -
  let ?bf = "Some ''/System/Library/Fonts/Arial Bold.ttc''"
  obtain img1 y1 where s1:
    "quote_step env_online ?bf 1024 1 (blank_canvas 1024, 85) quote_a = (img1, y1)"
    by (cases "quote_step env_online ?bf 1024 1 (blank_canvas 1024, 85) quote_a")
  have y1: "y1 = 289"
    using quote_step_result[OF s1] by (simp add: total_height_a line_spacing_a)
  have t1: "black_tops (cv_ops img1) = [85]"
    using quote_step_tops[OF s1] by (simp add: total_height_a line_heights_a blank_canvas_def)
  obtain img2 y2 where s2: "quote_step env_online ?bf 1024 1 (img1, 289) quote_b = (img2, y2)"
    by (cases "quote_step env_online ?bf 1024 1 (img1, 289) quote_b")
  have t2: "black_tops (cv_ops img2) = [85, 289]"
    using quote_step_tops[OF s2] t1 by (simp add: total_height_b line_heights_b)
  have loop1: "overlay_loop env_online ?bf 1024 1 (blank_canvas 1024, 85) [quote_a] = (img1, 289)"
    using s1 y1 by simp
  have loop2: "overlay_loop env_online ?bf 1024 1 (blank_canvas 1024, 85) [quote_a, quote_b]
      = (img2, y2)"
    using s1 y1 s2 by simp
  have "fst (add_text_overlay env_online (blank_canvas 1024) 1024 [quote_a, quote_b] 1) = img2"
    using loop2 by (simp add: add_text_overlay_def Let_def sort_a_b find_base_font_online)
  then show ?thesis
    using loop1 t2 by (simp add: find_base_font_online total_height_a line_spacing_a)
qed

lemma sort_quotes_mset: "mset (sort_quotes qs) = mset qs"
  by (simp add: sort_quotes_def)

lemma sort_quotes_sorted: "sorted (map (\<lambda>q. - importance q) (sort_quotes qs))"
  by (simp add: sort_quotes_def)

lemma sort_quotes_stable:
  "filter (\<lambda>q. importance q = k) (sort_quotes qs) = filter (\<lambda>q. importance q = k) qs"
  using sort_key_stable[of "\<lambda>q. - importance q" "- k" qs] by (simp add: sort_quotes_def)

text \<open>
  C9: (as the code has it) \<open>add_text_overlay\<close> sorts the list of its caller in place:
  after the call the list holds the same quote records, none changed, added or dropped, in
  descending importance, quotes of equal importance in their former order.
\<close>

theorem add_text_overlay_sorts_caller_list:
  "snd (add_text_overlay e img sz qs m) = sort_quotes qs
   \<and> mset (snd (add_text_overlay e img sz qs m)) = mset qs
   \<and> sorted (map (\<lambda>q. - importance q) (snd (add_text_overlay e img sz qs m)))
   \<and> (\<forall>k. filter (\<lambda>q. importance q = k) (snd (add_text_overlay e img sz qs m))
           = filter (\<lambda>q. importance q = k) qs)"
  using sort_quotes_mset sort_quotes_sorted sort_quotes_stable
  by (simp add: add_text_overlay_def Let_def)

text \<open>A list in ascending importance comes back reversed.\<close>

theorem caller_list_reordered:
  "snd (add_text_overlay env_offline (blank_canvas 1024) 1024 [quote_short, quote_long] 1)
     = [quote_long, quote_short]
   \<and> [quote_long, quote_short] \<noteq> [quote_short, quote_long]"
  by (simp add: add_text_overlay_def Let_def sort_quotes_def quote_long_def quote_short_def)

lemma py_int_mono: "x \<le> y \<Longrightarrow> py_int x \<le> py_int y"
proof -
  assume le: "x \<le> y"
  show ?thesis
  proof (cases "0 \<le> x")
    case True
    then show ?thesis using le by (simp add: py_int_def floor_mono)
  next
    case False
    then have "\<lceil>x\<rceil> \<le> 0" by (simp add: ceiling_le_zero)
    show ?thesis
    proof (cases "0 \<le> y")
      case True
      then have "0 \<le> \<lfloor>y\<rfloor>" by simp
      then have "\<lceil>x\<rceil> \<le> \<lfloor>y\<rfloor>" using \<open>\<lceil>x\<rceil> \<le> 0\<close> by linarith
      then show ?thesis using False True by (simp add: py_int_def)
    next
      case False
      then show ?thesis using le \<open>\<not> 0 \<le> x\<close> by (simp add: py_int_def ceiling_mono)
    qed
  qed
qed

lemma single_emoji_positions:
  "emoji_positions [d] = replicate (nat (max 2 (weight d))) (emoji d)"
  by (simp add: emoji_positions_def)

lemma font_size_bounds:
  assumes "0 \<le> m" "150 \<le> sz div 2"
  shows "py_int (150 * m) \<le> quote_font_size sz m imp
         \<and> quote_font_size sz m imp \<le> py_int (of_int (sz div 2) * m)"
proof -
  have "(150::rat) \<le> of_int (sz div 2)" using assms(2) by linarith
  then have "150 * m \<le> of_int (sz div 2) * m" using assms(1) by (rule mult_right_mono)
  then have "py_int (150 * m) \<le> py_int (of_int (sz div 2) * m)" by (rule py_int_mono)
  then show ?thesis by (simp add: quote_font_size_def Let_def)
qed




subsection \<open>Pipeline\<close>

lemma create_emoji_background_ok:
  assumes "64 \<le> sz"
  shows "\<exists>img' r'. create_emoji_background e img sz ems r = Inr (img', r')
           \<and> black_lines (cv_ops img') = black_lines (cv_ops img)
           \<and> cv_pixels img' = cv_pixels img \<and> cv_size img' = cv_size img"
proof -
  obtain shuffled r1 where s: "shuffle (emoji_positions ems) r = (shuffled, r1)"
    by (cases "shuffle (emoji_positions ems) r")
  from place_emojis_ok[OF assms, of e shuffled img r1]
  obtain img' r' where p: "place_emojis e sz shuffled img r1 = (None, img', r')"
      "black_lines (cv_ops img') = black_lines (cv_ops img)"
      "cv_pixels img' = cv_pixels img" "cv_size img' = cv_size img"
    by blast
  have "create_emoji_background e img sz ems r = Inr (img', r')"
    using s p(1) by (simp add: create_emoji_background_def)
  then show ?thesis using p by blast
qed

lemma create_emoji_background_empty:
  "create_emoji_background e img sz [] r = Inr (img, r)"
  by (simp add: create_emoji_background_def emoji_positions_def shuffle_def)

lemma add_text_overlay_empty: "fst (add_text_overlay e img sz [] m) = img"
  by (simp add: add_text_overlay_def sort_quotes_def)


end
